theory Spec2Isabelle
  imports Main "HOL-Library.Word"
begin

section \<open>Data model\<close>

text \<open>
  Go strings are byte sequences; \<^typ>\<open>string\<close> is a list of 8-bit characters.
  A Go slice is modelled as a list: the code never compares a slice with \<open>nil\<close>, and
  a nil slice has length zero and ranges as the empty slice does. (The two differ only
  in how \<open>encoding/json\<close> prints them, which this model leaves to a parameter.)
  A Go map can be \<open>nil\<close>, and \<open>filterEmpty\<close> tests for it, so a map value is an
  optional partial function: \<open>None\<close> is the nil map.
\<close>

type_synonym labels = "string \<rightharpoonup> string"

record TargetDescriptor =
  Targets :: "string list"
  Labels :: "labels option"

text \<open>
  Modelled from the spec: the \<open>Device\<close> struct is declared in a file of the repository
  that is not part of the sources at hand; its fields are those of section 3 of the
  specification, with the names \<open>translate\<close> reads.
\<close>

record Device =
  Addresses :: "string list"
  API :: string
  Authorized :: bool
  ClientVersion :: string
  Hostname :: string
  ID :: string
  Name :: string
  OS :: string
  Tags :: "string list"
  Tailnet :: string

definition LabelMetaAPI :: string where
  "LabelMetaAPI = ''__meta_tailscale_api''"

definition LabelMetaDeviceAuthorized :: string where
  "LabelMetaDeviceAuthorized = ''__meta_tailscale_device_authorized''"

definition LabelMetaDeviceClientVersion :: string where
  "LabelMetaDeviceClientVersion = ''__meta_tailscale_device_client_version''"

definition LabelMetaDeviceHostname :: string where
  "LabelMetaDeviceHostname = ''__meta_tailscale_device_hostname''"

definition LabelMetaDeviceID :: string where
  "LabelMetaDeviceID = ''__meta_tailscale_device_id''"

definition LabelMetaDeviceName :: string where
  "LabelMetaDeviceName = ''__meta_tailscale_device_name''"

definition LabelMetaDeviceOS :: string where
  "LabelMetaDeviceOS = ''__meta_tailscale_device_os''"

definition LabelMetaDeviceTag :: string where
  "LabelMetaDeviceTag = ''__meta_tailscale_device_tag''"

definition LabelMetaTailnet :: string where
  "LabelMetaTailnet = ''__meta_tailscale_tailnet''"

text \<open>Reading a nil map gives no entry, as reading an empty map does.\<close>

definition entries :: "labels option \<Rightarrow> labels" where
  "entries ls = (case ls of None \<Rightarrow> Map.empty | Some m \<Rightarrow> m)"

section \<open>Go's \<open>net\<close> package: parsing and printing addresses\<close>

text \<open>
  \<open>filterIPv6Addresses\<close> calls \<open>net.ParseIP\<close>, \<open>IP.To4\<close> and \<open>IP.String\<close> of Go's
  standard library. They are modelled after the library's source as of Go 1.22:
  \<open>net.ParseIP\<close> is \<open>netip.ParseAddr\<close> followed by the rejection of zones and the
  conversion to sixteen bytes. Bytes are \<^typ>\<open>8 word\<close>; the parser's \<open>int\<close> and \<open>uint32\<close>
  accumulators are checked against 255 and 65535 after every digit, so they never wrap
  and are natural numbers here. Earlier releases differ only on inputs no theorem below
  depends on: IPv4 fields with leading zeros and hex groups of more than four digits,
  both refused here.
\<close>

type_synonym byte = "8 word"

text \<open>A four-byte address, as \<open>To4\<close> returns it.\<close>

type_synonym ipv4 = "byte \<times> byte \<times> byte \<times> byte"

text \<open>\<open>netip.Addr\<close>: four bytes, or sixteen bytes and a zone.\<close>

datatype Addr = Addr4 "byte list" | Addr6 "byte list" string

definition isDigit :: "char \<Rightarrow> bool" where
  "isDigit c \<longleftrightarrow> (48::nat) \<le> of_char c \<and> (of_char c :: nat) \<le> 57"

text \<open>
  The loop of \<open>parseIPv4Fields\<close> over \<open>s[i]\<close>. \<open>prev\<close> is \<open>s[i-1]\<close>, absent when
  \<open>i = 0\<close>; the remaining input is empty after \<open>s[i]\<close> exactly when \<open>i = len(s)-1\<close>.
\<close>

fun parseIPv4FieldsFrom ::
  "string \<Rightarrow> char option \<Rightarrow> nat \<Rightarrow> nat \<Rightarrow> nat \<Rightarrow> byte list \<Rightarrow> byte list option" where
  "parseIPv4FieldsFrom [] prev val pos digLen flds =
     (if pos < 3 then None else Some (flds[3 := of_nat val]))"
| "parseIPv4FieldsFrom (c # cs) prev val pos digLen flds =
     (if isDigit c then
        (if digLen = 1 \<and> val = 0 then None
         else let val = val * 10 + of_char c - 48; digLen = digLen + 1
              in if val > 255 then None
                 else parseIPv4FieldsFrom cs (Some c) val pos digLen flds)
      else if c = CHR ''.'' then
        (if prev = None \<or> cs = [] \<or> prev = Some CHR ''.'' then None
         else if pos = 3 then None
         else parseIPv4FieldsFrom cs (Some c) 0 (pos + 1) 0 (flds[pos := of_nat val]))
      else None)"

definition parseIPv4Fields :: "string \<Rightarrow> byte list option" where
  "parseIPv4Fields s = parseIPv4FieldsFrom s None 0 0 0 [0, 0, 0, 0]"

definition parseIPv4 :: "string \<Rightarrow> Addr option" where
  "parseIPv4 s = map_option Addr4 (parseIPv4Fields s)"

definition hexVal :: "char \<Rightarrow> nat option" where
  "hexVal c =
     (let n = (of_char c :: nat)
      in if 48 \<le> n \<and> n \<le> 57 then Some (n - 48)
         else if 97 \<le> n \<and> n \<le> 102 then Some (n - 97 + 10)
         else if 65 \<le> n \<and> n \<le> 70 then Some (n - 65 + 10)
         else None)"

text \<open>The inner loop of \<open>parseIPv6\<close>: one group of hex digits, \<open>(off, acc)\<close> at its end.\<close>

fun scanHex :: "string \<Rightarrow> nat \<Rightarrow> nat \<Rightarrow> (nat \<times> nat) option" where
  "scanHex [] off acc = Some (off, acc)"
| "scanHex (c # cs) off acc =
     (case hexVal c of
        None \<Rightarrow> Some (off, acc)
      | Some v \<Rightarrow>
          (let acc = acc * 16 + v
           in if off > 3 then None
              else if acc > 65535 then None
              else scanHex cs (off + 1) acc))"

text \<open>
  The outer loop of \<open>parseIPv6\<close>, \<open>for i < 16\<close>: the state \<open>(s, i, ellipsis, ip)\<close> at
  its exit, or no result where the source returns an error.
\<close>

function parseIPv6Groups ::
  "string \<Rightarrow> nat \<Rightarrow> int \<Rightarrow> byte list \<Rightarrow> (string \<times> nat \<times> int \<times> byte list) option" where
  "parseIPv6Groups s i ellipsis ip =
     (if \<not> i < 16 then Some (s, i, ellipsis, ip)
      else case scanHex s 0 0 of
        None \<Rightarrow> None
      | Some (off, acc) \<Rightarrow>
          if off = 0 then None
          else if off < length s \<and> s ! off = CHR ''.'' then
            (if ellipsis < 0 \<and> i \<noteq> 12 then None
             else if i + 4 > 16 then None
             else case parseIPv4Fields s of
               None \<Rightarrow> None
             | Some f \<Rightarrow>
                 Some ([], i + 4, ellipsis,
                       ip[i := f ! 0, i + 1 := f ! 1, i + 2 := f ! 2, i + 3 := f ! 3]))
          else
            (let ip' = ip[i := of_nat (acc div 256 mod 256), i + 1 := of_nat (acc mod 256)];
                 i' = i + 2;
                 s1 = drop off s
             in if length s1 = 0 then Some (s1, i', ellipsis, ip')
                else if s1 ! 0 \<noteq> CHR '':'' then None
                else if length s1 = 1 then None
                else
                  (let s2 = drop 1 s1
                   in if s2 ! 0 = CHR '':'' then
                        (if ellipsis \<ge> 0 then None
                         else let s3 = drop 1 s2
                              in if length s3 = 0 then Some (s3, i', int i', ip')
                                 else parseIPv6Groups s3 i' (int i') ip')
                      else parseIPv6Groups s2 i' ellipsis ip')))"
  by pat_completeness auto
termination
  by (relation "measure (\<lambda>(s, i, ellipsis, ip). 16 - i)") auto

fun indexByte :: "string \<Rightarrow> char \<Rightarrow> nat option" where
  "indexByte [] c = None"
| "indexByte (x # xs) c = (if x = c then Some 0 else map_option Suc (indexByte xs c))"

text \<open>
  The two loops that move the groups after \<open>::\<close> to the end of the address and clear
  the gap.
\<close>

definition expandEllipsis :: "byte list \<Rightarrow> nat \<Rightarrow> nat \<Rightarrow> byte list" where
  "expandEllipsis ip i ellipsis =
     (let n = 16 - i;
          ip = fold (\<lambda>j ip. ip[j + n := ip ! j]) (rev [ellipsis..<i]) ip
      in fold (\<lambda>j ip. ip[j := 0]) [ellipsis..<ellipsis + n] ip)"

text \<open>\<open>parseIPv6\<close> once the zone is split off.\<close>

definition parseIPv6Zoneless :: "string \<Rightarrow> string \<Rightarrow> Addr option" where
  "parseIPv6Zoneless s zone =
     (let ip = [0, 0, 0, 0, 0, 0, 0, 0, 0, 0, 0, 0, 0, 0, 0, 0];
          lead = (length s \<ge> 2 \<and> s ! 0 = CHR '':'' \<and> s ! 1 = CHR '':'');
          ellipsis = (if lead then 0 else -1);
          s = (if lead then drop 2 s else s)
      in if lead \<and> length s = 0
         then Some (Addr6 [0, 0, 0, 0, 0, 0, 0, 0, 0, 0, 0, 0, 0, 0, 0, 0] zone)
         else case parseIPv6Groups s 0 ellipsis ip of
           None \<Rightarrow> None
         | Some (s, i, ellipsis, ip) \<Rightarrow>
             if length s \<noteq> 0 then None
             else if i < 16 then
               (if ellipsis < 0 then None
                else Some (Addr6 (expandEllipsis ip i (nat ellipsis)) zone))
             else if ellipsis \<ge> 0 then None
             else Some (Addr6 ip zone))"

definition parseIPv6 :: "string \<Rightarrow> Addr option" where
  "parseIPv6 inp =
     (case indexByte inp CHR ''%'' of
        None \<Rightarrow> parseIPv6Zoneless inp []
      | Some i \<Rightarrow>
          (let s = take i inp; zone = drop (i + 1) inp
           in if zone = [] then None else parseIPv6Zoneless s zone))"

text \<open>\<open>netip.ParseAddr\<close>: the first of \<open>.\<close>, \<open>:\<close> and \<open>%\<close> in \<open>s\<close> picks the parser.\<close>

fun ParseAddrFrom :: "string \<Rightarrow> string \<Rightarrow> Addr option" where
  "ParseAddrFrom [] s = None"
| "ParseAddrFrom (c # cs) s =
     (if c = CHR ''.'' then parseIPv4 s
      else if c = CHR '':'' then parseIPv6 s
      else if c = CHR ''%'' then None
      else ParseAddrFrom cs s)"

definition ParseAddr :: "string \<Rightarrow> Addr option" where
  "ParseAddr s = ParseAddrFrom s s"

fun Zone :: "Addr \<Rightarrow> string" where
  "Zone (Addr4 b) = []"
| "Zone (Addr6 b z) = z"

fun As16 :: "Addr \<Rightarrow> byte list" where
  "As16 (Addr4 b) = [0, 0, 0, 0, 0, 0, 0, 0, 0, 0, 0xff, 0xff] @ b"
| "As16 (Addr6 b z) = b"

text \<open>\<open>net.ParseIP\<close>: the sixteen-byte form, \<open>None\<close> for Go's nil.\<close>

definition ParseIP :: "string \<Rightarrow> byte list option" where
  "ParseIP s =
     (case ParseAddr s of
        None \<Rightarrow> None
      | Some ip \<Rightarrow> if Zone ip \<noteq> [] then None else Some (As16 ip))"

definition isZeros :: "byte list \<Rightarrow> bool" where
  "isZeros p = list_all (\<lambda>b. b = 0) p"

definition To4 :: "byte list \<Rightarrow> ipv4 option" where
  "To4 ip =
     (if length ip = 4 then Some (ip ! 0, ip ! 1, ip ! 2, ip ! 3)
      else if length ip = 16 \<and> isZeros (take 10 ip) \<and> ip ! 10 = 0xff \<and> ip ! 11 = 0xff
      then Some (ip ! 12, ip ! 13, ip ! 14, ip ! 15)
      else None)"

definition digits :: string where
  "digits = ''0123456789''"

definition appendDecimal :: "string \<Rightarrow> byte \<Rightarrow> string" where
  "appendDecimal b x =
     (let n = unat x;
          b = (if n \<ge> 100 then b @ [digits ! (n div 100)] else b);
          b = (if n \<ge> 10 then b @ [digits ! (n div 10 mod 10)] else b)
      in b @ [digits ! (n mod 10)])"

text \<open>\<open>IP.String\<close> on a four-byte address, the only kind this program prints.\<close>

fun String4 :: "ipv4 \<Rightarrow> string" where
  "String4 (a, b, c, d) =
     appendDecimal (appendDecimal (appendDecimal (appendDecimal [] a @ ''.'') b @ ''.'') c @ ''.'') d"

text \<open>The decimal digits \<open>appendDecimal\<close> writes for one byte.\<close>

definition dec :: "byte \<Rightarrow> string" where
  "dec x = appendDecimal [] x"

section \<open>The filters\<close>

text \<open>
  \<open>filterEmpty\<close>: nil stays nil; otherwise a fresh map receives the entries whose key
  and value are both non-empty. Keys are unique, so what the fresh map holds at a key
  depends on the input's entry at that key alone.
\<close>

definition filterEmpty :: "labels option \<Rightarrow> labels option" where
  "filterEmpty inp =
     (case inp of
        None \<Rightarrow> None
      | Some m \<Rightarrow>
          Some (\<lambda>k. case m k of
                       None \<Rightarrow> None
                     | Some v \<Rightarrow> if k = [] \<or> v = [] then None else Some v))"

text \<open>The loop of \<open>filterIPv6Addresses\<close>, with \<open>targets\<close> as accumulator.\<close>

fun filterIPv6From :: "string list \<Rightarrow> string list \<Rightarrow> string list" where
  "filterIPv6From [] targets = targets"
| "filterIPv6From (target # rest) targets =
     (case ParseIP target of
        None \<Rightarrow> filterIPv6From rest targets
      | Some ip \<Rightarrow>
          (case To4 ip of
             Some ipv4 \<Rightarrow> filterIPv6From rest (targets @ [String4 ipv4])
           | None \<Rightarrow> filterIPv6From rest targets))"

text \<open>What one pass of that loop's body appends for \<open>target\<close>.\<close>

definition keptAddress :: "string \<Rightarrow> string list" where
  "keptAddress target =
     (case ParseIP target of
        None \<Rightarrow> []
      | Some ip \<Rightarrow> (case To4 ip of Some ipv4 \<Rightarrow> [String4 ipv4] | None \<Rightarrow> []))"

definition filterIPv6Addresses :: "TargetDescriptor \<Rightarrow> TargetDescriptor" where
  "filterIPv6Addresses td = \<lparr> Targets = filterIPv6From (Targets td) [], Labels = Labels td \<rparr>"

definition filterEmptyLabels :: "TargetDescriptor \<Rightarrow> TargetDescriptor" where
  "filterEmptyLabels td = \<lparr> Targets = Targets td, Labels = filterEmpty (Labels td) \<rparr>"

section \<open>The translator\<close>

type_synonym filterT = "TargetDescriptor \<Rightarrow> TargetDescriptor"

text \<open>\<open>fmt.Sprint\<close> of a Go \<open>bool\<close>.\<close>

definition SprintBool :: "bool \<Rightarrow> string" where
  "SprintBool b = (if b then ''true'' else ''false'')"

text \<open>The composite literal at the head of the loop body of \<open>translate\<close>.\<close>

definition baseTarget :: "Device \<Rightarrow> TargetDescriptor" where
  "baseTarget d =
     \<lparr> Targets = Addresses d,
       Labels = Some [
         LabelMetaAPI \<mapsto> API d,
         LabelMetaDeviceAuthorized \<mapsto> SprintBool (Authorized d),
         LabelMetaDeviceClientVersion \<mapsto> ClientVersion d,
         LabelMetaDeviceHostname \<mapsto> Hostname d,
         LabelMetaDeviceID \<mapsto> ID d,
         LabelMetaDeviceName \<mapsto> Name d,
         LabelMetaDeviceOS \<mapsto> OS d,
         LabelMetaTailnet \<mapsto> Tailnet d] \<rparr>"

text \<open>\<open>for _, filter := range filters { target = filter(target) }\<close>\<close>

fun applyFilters :: "filterT list \<Rightarrow> TargetDescriptor \<Rightarrow> TargetDescriptor" where
  "applyFilters [] target = target"
| "applyFilters (f # fs) target = applyFilters fs (f target)"

text \<open>
  One fan-out copy: a fresh map receives every entry of \<open>target.Labels\<close> (none when
  that map is nil) and then the tag.
\<close>

definition withTag :: "TargetDescriptor \<Rightarrow> string \<Rightarrow> TargetDescriptor" where
  "withTag target t =
     target\<lparr>Labels := Some ((entries (Labels target))(LabelMetaDeviceTag \<mapsto> t))\<rparr>"

text \<open>\<open>for _, t := range d.Tags { ...; found = append(found, lt) }\<close>\<close>

fun fanOut :: "TargetDescriptor \<Rightarrow> string list \<Rightarrow> TargetDescriptor list \<Rightarrow> TargetDescriptor list" where
  "fanOut target [] found = found"
| "fanOut target (t # ts) found = fanOut target ts (found @ [withTag target t])"

fun translateFrom :: "Device list \<Rightarrow> filterT list \<Rightarrow> TargetDescriptor list \<Rightarrow> TargetDescriptor list" where
  "translateFrom [] filters found = found"
| "translateFrom (d # ds) filters found =
     (let target = applyFilters filters (baseTarget d)
      in if length (Tags d) = 0
         then translateFrom ds filters (found @ [target])
         else translateFrom ds filters (fanOut target (Tags d) found))"

definition translate :: "Device list \<Rightarrow> filterT list \<Rightarrow> TargetDescriptor list" where
  "translate devices filters = translateFrom devices filters []"

text \<open>The filters \<open>Export\<close> installs, in its order.\<close>

definition defaultFilters :: "filterT list" where
  "defaultFilters = [filterEmptyLabels, filterIPv6Addresses]"

text \<open>What one device contributes once its filtered descriptor is known.\<close>

definition emitted :: "filterT list \<Rightarrow> Device \<Rightarrow> TargetDescriptor list" where
  "emitted filters d =
     (let target = applyFilters filters (baseTarget d)
      in if Tags d = [] then [target] else map (withTag target) (Tags d))"

text \<open>The keys of the composite literal in \<open>translate\<close>.\<close>

definition baseLabelKeys :: "string set" where
  "baseLabelKeys =
     {LabelMetaAPI, LabelMetaDeviceAuthorized, LabelMetaDeviceClientVersion,
      LabelMetaDeviceHostname, LabelMetaDeviceID, LabelMetaDeviceName,
      LabelMetaDeviceOS, LabelMetaTailnet}"

section \<open>Map iteration order\<close>

text \<open>
  A Go \<open>range\<close> over a map visits every entry once, in an order the language leaves
  open. The two such loops of the program have the shape
  \<open>for k, v := range src { if !keep(k, v) { continue }; dst[k] = v }\<close>.
  \<open>rangeAssign keep src seen dst dst'\<close>: having visited the keys in \<open>seen\<close> and
  built \<open>dst\<close>, the loop can end with \<open>dst'\<close>, whichever unvisited entry comes next.
\<close>

inductive rangeAssign ::
  "(string \<Rightarrow> string \<Rightarrow> bool) \<Rightarrow> labels \<Rightarrow> string set \<Rightarrow> labels \<Rightarrow> labels \<Rightarrow> bool"
  for keep :: "string \<Rightarrow> string \<Rightarrow> bool" and src :: labels
where
  rangeEnd: "dom src \<subseteq> seen \<Longrightarrow> rangeAssign keep src seen dst dst"
| rangeSkip:
    "src k = Some v \<Longrightarrow> k \<notin> seen \<Longrightarrow> \<not> keep k v \<Longrightarrow>
     rangeAssign keep src (insert k seen) dst dst' \<Longrightarrow>
     rangeAssign keep src seen dst dst'"
| rangeStore:
    "src k = Some v \<Longrightarrow> k \<notin> seen \<Longrightarrow> keep k v \<Longrightarrow>
     rangeAssign keep src (insert k seen) (dst(k \<mapsto> v)) dst' \<Longrightarrow>
     rangeAssign keep src seen dst dst'"

text \<open>\<open>filterEmpty\<close> with its loop run in any order.\<close>

inductive filterEmptyRel :: "labels option \<Rightarrow> labels option \<Rightarrow> bool" where
  filterEmptyNil: "filterEmptyRel None None"
| filterEmptyMap:
    "rangeAssign (\<lambda>k v. \<not> (k = [] \<or> v = [])) m {} Map.empty filtered \<Longrightarrow>
     filterEmptyRel (Some m) (Some filtered)"

text \<open>The tag loop of \<open>translate\<close>, each copy of the labels made in any order.\<close>

inductive fanOutRel ::
  "TargetDescriptor \<Rightarrow> string list \<Rightarrow> TargetDescriptor list \<Rightarrow> TargetDescriptor list \<Rightarrow> bool"
  for target :: TargetDescriptor
where
  fanOutEnd: "fanOutRel target [] found found"
| fanOutTag:
    "rangeAssign (\<lambda>k v. True) (entries (Labels target)) {} Map.empty copied \<Longrightarrow>
     fanOutRel target ts
       (found @ [target\<lparr>Labels := Some (copied(LabelMetaDeviceTag \<mapsto> t))\<rparr>]) found' \<Longrightarrow>
     fanOutRel target (t # ts) found found'"

text \<open>\<open>translate\<close> over that tag loop: \<open>found\<close> before the devices, \<open>found'\<close> after.\<close>

inductive translateRel ::
  "Device list \<Rightarrow> filterT list \<Rightarrow> TargetDescriptor list \<Rightarrow> TargetDescriptor list \<Rightarrow> bool"
where
  translateEnd: "translateRel [] filters found found"
| translateUntagged:
    "length (Tags d) = 0 \<Longrightarrow>
     translateRel ds filters (found @ [applyFilters filters (baseTarget d)]) found' \<Longrightarrow>
     translateRel (d # ds) filters found found'"
| translateTagged:
    "length (Tags d) \<noteq> 0 \<Longrightarrow>
     fanOutRel (applyFilters filters (baseTarget d)) (Tags d) found found1 \<Longrightarrow>
     translateRel ds filters found1 found' \<Longrightarrow>
     translateRel (d # ds) filters found found'"

section \<open>The discovery handler\<close>

text \<open>
  Modelled from the spec: the \<open>Client\<close> interface and the \<open>ErrStaleResults\<close> value are
  declared in files of the repository that are not part of the sources at hand. The
  handler only compares the error of \<open>Devices\<close> with \<open>ErrStaleResults\<close> and prints any
  other error, so an error is that distinguished value or a message.
\<close>

datatype error = ErrStaleResults | Err string

text \<open>
  What the handler hands to its \<open>http.ResponseWriter\<close>: the status code once the header
  is written, the header fields the handler added before that, and the body bytes. The
  writer keeps what it is given; a write to it does not fail here, so the last branch of
  \<open>ServeHTTP\<close>, which logs a failed copy and changes nothing else, has no counterpart.
\<close>

record ResponseWriter =
  statusCode :: "nat option"
  headers :: "(string \<times> string) list"
  written :: string

definition newResponse :: ResponseWriter where
  "newResponse = \<lparr> statusCode = None, headers = [], written = [] \<rparr>"

text \<open>\<open>WriteHeader\<close> counts once; a later call changes nothing.\<close>

definition WriteHeader :: "nat \<Rightarrow> ResponseWriter \<Rightarrow> ResponseWriter" where
  "WriteHeader code w = (case statusCode w of None \<Rightarrow> w\<lparr>statusCode := Some code\<rparr> | Some c \<Rightarrow> w)"

text \<open>\<open>Write\<close> sends the header with status 200 first when none was written.\<close>

definition Write :: "string \<Rightarrow> ResponseWriter \<Rightarrow> ResponseWriter" where
  "Write p w = (let w = WriteHeader 200 w in w\<lparr>written := written w @ p\<rparr>)"

text \<open>\<open>Header().Add\<close>: a field added after the header is written is not sent.\<close>

definition HeaderAdd :: "string \<Rightarrow> string \<Rightarrow> ResponseWriter \<Rightarrow> ResponseWriter" where
  "HeaderAdd k v w = (if statusCode w = None then w\<lparr>headers := headers w @ [(k, v)]\<rparr> else w)"

text \<open>
  The status the client receives: the server answers 200 for a handler that returns
  without having written a header.
\<close>

definition finalStatus :: "ResponseWriter \<Rightarrow> nat" where
  "finalStatus w = (case statusCode w of None \<Rightarrow> 200 | Some c \<Rightarrow> c)"

text \<open>
  The part of \<open>ServeHTTP\<close> after the error check. \<open>encode\<close> stands for
  \<open>json.NewEncoder(&buf).Encode\<close>: the bytes left in \<open>buf\<close>, or the encoder's error.
  \<open>io.Copy\<close> from a \<open>bytes.Buffer\<close> writes only when the buffer holds bytes. The result is
  the response and the lines logged.
\<close>

definition serveTargets ::
  "(TargetDescriptor list \<Rightarrow> string + string) \<Rightarrow> filterT list \<Rightarrow> Device list \<Rightarrow>
   ResponseWriter \<Rightarrow> string list \<Rightarrow> ResponseWriter \<times> string list" where
  "serveTargets encode filters devices w logged =
     (let targets = translate devices filters
      in case encode targets of
           Inl e \<Rightarrow>
             (let w = WriteHeader 500 w;
                  logged = logged @ [''Failed encoding targets to JSON: '' @ e];
                  w = Write (''Failed encoding targets to JSON: '' @ e) w
              in (w, logged))
         | Inr buf \<Rightarrow>
             (let w = HeaderAdd ''Content-Type'' ''application/json'' w;
                  w = (if buf = [] then w else Write buf w)
              in (w, logged)))"

text \<open>\<open>ServeHTTP\<close>, given what \<open>h.ts.Devices\<close> returned for the request.\<close>

definition ServeHTTP ::
  "(TargetDescriptor list \<Rightarrow> string + string) \<Rightarrow> filterT list \<Rightarrow>
   Device list \<times> error option \<Rightarrow> ResponseWriter \<Rightarrow> ResponseWriter \<times> string list" where
  "ServeHTTP encode filters result w =
     (case result of
        (devices, None) \<Rightarrow> serveTargets encode filters devices w []
      | (devices, Some ErrStaleResults) \<Rightarrow>
          serveTargets encode filters devices w [''Serving potentially stale results'']
      | (devices, Some (Err msg)) \<Rightarrow>
          (let w = WriteHeader 500 w;
               logged = [''Failed to discover Tailscale devices: '' @ msg];
               w = Write (''Failed to discover Tailscale devices: '' @ msg) w
           in (w, logged)))"

section \<open>Example inputs\<close>

text \<open>
  A device as the public API reports it, with the three addresses of the
  specification's address-filtering example and no client version.
\<close>

definition exampleDevice :: Device where
  "exampleDevice =
     \<lparr> Addresses = [''100.64.0.1'', ''2001:db8::1'', ''not-an-ip''],
       API = ''api.tailscale.com'',
       Authorized = True,
       ClientVersion = [],
       Hostname = ''somehost'',
       ID = ''12345'',
       Name = ''somehost.example.com'',
       OS = ''linux'',
       Tags = [],
       Tailnet = ''example.com'' \<rparr>"

section \<open>Properties of the translator\<close>

lemmas label_defs =
  LabelMetaAPI_def LabelMetaDeviceAuthorized_def LabelMetaDeviceClientVersion_def
  LabelMetaDeviceHostname_def LabelMetaDeviceID_def LabelMetaDeviceName_def
  LabelMetaDeviceOS_def LabelMetaDeviceTag_def LabelMetaTailnet_def

lemma fanOut_append: "fanOut target ts found = found @ map (withTag target) ts"
  by (induction ts arbitrary: found) simp_all

lemma translateFrom_append:
  "translateFrom ds filters found = found @ concat (map (emitted filters) ds)"
  by (induction ds arbitrary: found) (simp_all add: emitted_def fanOut_append Let_def)

lemma translate_concat: "translate ds filters = concat (map (emitted filters) ds)"
  by (simp add: translate_def translateFrom_append)

lemma translate_Nil: "translate [] filters = []"
  by (simp add: translate_def)

lemma translate_Cons: "translate (d # ds) filters = emitted filters d @ translate ds filters"
  by (simp add: translate_concat)

lemma translate_single: "translate [d] filters = emitted filters d"
  by (simp add: translate_concat)

lemma translate_app: "translate (ds @ es) filters = translate ds filters @ translate es filters"
  by (simp add: translate_concat)

subsection \<open>The base descriptor\<close>

lemma label_keys_distinct:
  "distinct [LabelMetaAPI, LabelMetaDeviceAuthorized, LabelMetaDeviceClientVersion,
     LabelMetaDeviceHostname, LabelMetaDeviceID, LabelMetaDeviceName, LabelMetaDeviceOS,
     LabelMetaTailnet, LabelMetaDeviceTag]"
  by (simp add: label_defs)

lemma entries_Some [simp]: "entries (Some m) = m"
  by (simp add: entries_def)

lemma entries_None [simp]: "entries None = Map.empty"
  by (simp add: entries_def)

lemma Targets_baseTarget: "Targets (baseTarget d) = Addresses d"
  by (simp add: baseTarget_def)

lemma dom_baseTarget: "dom (entries (Labels (baseTarget d))) = baseLabelKeys"
  by (auto simp: baseTarget_def baseLabelKeys_def)

lemma baseTarget_values:
  "entries (Labels (baseTarget d)) LabelMetaAPI = Some (API d)"
  "entries (Labels (baseTarget d)) LabelMetaDeviceAuthorized = Some (SprintBool (Authorized d))"
  "entries (Labels (baseTarget d)) LabelMetaDeviceClientVersion = Some (ClientVersion d)"
  "entries (Labels (baseTarget d)) LabelMetaDeviceHostname = Some (Hostname d)"
  "entries (Labels (baseTarget d)) LabelMetaDeviceID = Some (ID d)"
  "entries (Labels (baseTarget d)) LabelMetaDeviceName = Some (Name d)"
  "entries (Labels (baseTarget d)) LabelMetaDeviceOS = Some (OS d)"
  "entries (Labels (baseTarget d)) LabelMetaTailnet = Some (Tailnet d)"
  by (simp_all add: baseTarget_def label_defs)

lemma Targets_withTag [simp]: "Targets (withTag target t) = Targets target"
  by (simp add: withTag_def)

lemma entries_withTag:
  "entries (Labels (withTag target t)) k =
     (if k = LabelMetaDeviceTag then Some t else entries (Labels target) k)"
  by (simp add: withTag_def)

lemma tag_key_not_base: "LabelMetaDeviceTag \<notin> baseLabelKeys"
  by (simp add: baseLabelKeys_def label_defs)

lemma emitted_no_filters:
  assumes "td \<in> set (emitted [] d)"
  shows "Targets td = Addresses d"
    and "k \<in> baseLabelKeys \<Longrightarrow> entries (Labels td) k = entries (Labels (baseTarget d)) k"
  using assms tag_key_not_base
  by (auto simp: emitted_def Let_def Targets_baseTarget entries_withTag split: if_splits)

text \<open>
  C7. Before any filter runs, the descriptor \<open>translate\<close> builds for a device has the
  device's addresses as targets and a label map with exactly the eight fixed keys, each
  holding the device's field as it is (the boolean printed by \<open>fmt.Sprint\<close>), empty
  strings included. With no filter, a device without tags is translated to exactly that
  descriptor, and every descriptor of any device sequence has all eight keys.
\<close>

theorem base_descriptor_has_eight_labels:
  "Targets (baseTarget d) = Addresses d
   \<and> (\<exists>m. Labels (baseTarget d) = Some m
          \<and> dom m = baseLabelKeys
          \<and> m LabelMetaAPI = Some (API d)
          \<and> m LabelMetaDeviceAuthorized = Some (SprintBool (Authorized d))
          \<and> m LabelMetaDeviceClientVersion = Some (ClientVersion d)
          \<and> m LabelMetaDeviceHostname = Some (Hostname d)
          \<and> m LabelMetaDeviceID = Some (ID d)
          \<and> m LabelMetaDeviceName = Some (Name d)
          \<and> m LabelMetaDeviceOS = Some (OS d)
          \<and> m LabelMetaTailnet = Some (Tailnet d))
   \<and> (Tags d = [] \<longrightarrow> translate [d] [] = [baseTarget d])
   \<and> (\<forall>td \<in> set (translate [d] []).
          Targets td = Addresses d
          \<and> (\<forall>k \<in> baseLabelKeys. entries (Labels td) k = entries (Labels (baseTarget d)) k))
   \<and> (\<forall>td \<in> set (translate ds []). baseLabelKeys \<subseteq> dom (entries (Labels td)))"
proof (intro conjI)
  show "Targets (baseTarget d) = Addresses d"
    by (rule Targets_baseTarget)
next
  have "Labels (baseTarget d) = Some (entries (Labels (baseTarget d)))"
    by (simp add: baseTarget_def)
  then show "\<exists>m. Labels (baseTarget d) = Some m
          \<and> dom m = baseLabelKeys
          \<and> m LabelMetaAPI = Some (API d)
          \<and> m LabelMetaDeviceAuthorized = Some (SprintBool (Authorized d))
          \<and> m LabelMetaDeviceClientVersion = Some (ClientVersion d)
          \<and> m LabelMetaDeviceHostname = Some (Hostname d)
          \<and> m LabelMetaDeviceID = Some (ID d)
          \<and> m LabelMetaDeviceName = Some (Name d)
          \<and> m LabelMetaDeviceOS = Some (OS d)
          \<and> m LabelMetaTailnet = Some (Tailnet d)"
    using dom_baseTarget[of d] baseTarget_values[of d] by blast
next
  show "Tags d = [] \<longrightarrow> translate [d] [] = [baseTarget d]"
    by (simp add: translate_single emitted_def)
next
  show "\<forall>td \<in> set (translate [d] []).
          Targets td = Addresses d
          \<and> (\<forall>k \<in> baseLabelKeys. entries (Labels td) k = entries (Labels (baseTarget d)) k)"
    using emitted_no_filters by (simp add: translate_single)
next
  show "\<forall>td \<in> set (translate ds []). baseLabelKeys \<subseteq> dom (entries (Labels td))"
  proof (intro ballI subsetI)
    fix td k
    assume "td \<in> set (translate ds [])" and k: "k \<in> baseLabelKeys"
    then obtain d' where "td \<in> set (emitted [] d')"
      by (auto simp: translate_concat)
    then have "entries (Labels td) k = entries (Labels (baseTarget d')) k"
      using k by (rule emitted_no_filters(2))
    moreover have "k \<in> dom (entries (Labels (baseTarget d')))"
      using k by (simp add: dom_baseTarget)
    ultimately show "k \<in> dom (entries (Labels td))"
      by (simp add: dom_def)
  qed
qed

theorem base_descriptor_has_eight_labels_witness:
  "Tags exampleDevice = []
   \<and> translate [exampleDevice] [] = [baseTarget exampleDevice]
   \<and> baseTarget exampleDevice \<in> set (translate [exampleDevice] [])
   \<and> LabelMetaDeviceClientVersion \<in> baseLabelKeys
   \<and> entries (Labels (baseTarget exampleDevice)) LabelMetaDeviceClientVersion = Some []
   \<and> LabelMetaDeviceClientVersion \<in> dom (entries (Labels (baseTarget exampleDevice)))"
proof -
  have tags: "Tags exampleDevice = []"
    by (simp add: exampleDevice_def)
  have tr: "translate [exampleDevice] [] = [baseTarget exampleDevice]"
    using base_descriptor_has_eight_labels[of exampleDevice "[exampleDevice]"] tags by blast
  have key: "LabelMetaDeviceClientVersion \<in> baseLabelKeys"
    by (simp add: baseLabelKeys_def)
  have "\<forall>td \<in> set (translate [exampleDevice] []). baseLabelKeys \<subseteq> dom (entries (Labels td))"
    using base_descriptor_has_eight_labels[of exampleDevice "[exampleDevice]"] by blast
  with tr key have dom: "LabelMetaDeviceClientVersion \<in> dom (entries (Labels (baseTarget exampleDevice)))"
    by auto
  have "entries (Labels (baseTarget exampleDevice)) LabelMetaDeviceClientVersion
          = Some (ClientVersion exampleDevice)"
    using base_descriptor_has_eight_labels[of exampleDevice "[exampleDevice]"] by auto
  then have val: "entries (Labels (baseTarget exampleDevice)) LabelMetaDeviceClientVersion = Some []"
    by (simp add: exampleDevice_def)
  from tags tr key dom val show ?thesis by simp
qed

subsection \<open>Fan-out: how many descriptors, and in which order\<close>

lemma withTag_record:
  "withTag target t =
     \<lparr> Targets = Targets target,
       Labels = Some ((entries (Labels target))(LabelMetaDeviceTag \<mapsto> t)) \<rparr>"
  by (cases target) (simp add: withTag_def)

lemma length_emitted:
  "length (emitted filters d) = (if Tags d = [] then 1 else length (Tags d))"
  by (simp add: emitted_def Let_def)

lemma tags_emitted:
  "Tags d \<noteq> [] \<Longrightarrow>
   map (\<lambda>td. entries (Labels td) LabelMetaDeviceTag) (emitted filters d) = map Some (Tags d)"
  by (simp add: emitted_def Let_def entries_withTag comp_def)

lemma length_translate:
  "length (translate ds filters) = (\<Sum>d\<leftarrow>ds. if Tags d = [] then 1 else length (Tags d))"
  by (induction ds) (simp_all add: translate_Nil translate_Cons length_emitted)

text \<open>
  C2, as amended. A device contributes one descriptor per entry of its \<open>Tags\<close>
  sequence, duplicates counted, in the place the device has in the input; a device
  without tags contributes exactly one. The descriptors of a tagged device carry its
  tags, entry by entry.
\<close>

theorem translate_one_descriptor_per_tag_entry:
  "length (translate [d] filters) = (if Tags d = [] then 1 else length (Tags d))
   \<and> translate (pre @ d # post) filters
       = translate pre filters @ translate [d] filters @ translate post filters
   \<and> length (translate ds filters)
       = (\<Sum>d\<leftarrow>ds. if Tags d = [] then 1 else length (Tags d))
   \<and> (Tags d \<noteq> [] \<longrightarrow>
        map (\<lambda>td. entries (Labels td) LabelMetaDeviceTag) (translate [d] filters)
          = map Some (Tags d))"
proof (intro conjI impI)
  show "length (translate [d] filters) = (if Tags d = [] then 1 else length (Tags d))"
    by (simp add: translate_single length_emitted)
  show "translate (pre @ d # post) filters
          = translate pre filters @ translate [d] filters @ translate post filters"
    by (simp add: translate_concat)
  show "length (translate ds filters)
          = (\<Sum>d\<leftarrow>ds. if Tags d = [] then 1 else length (Tags d))"
    by (rule length_translate)
  show "map (\<lambda>td. entries (Labels td) LabelMetaDeviceTag) (translate [d] filters)
          = map Some (Tags d)" if "Tags d \<noteq> []"
    using that by (simp add: translate_single tags_emitted)
qed

theorem translate_one_descriptor_per_tag_entry_witness:
  "Tags (exampleDevice\<lparr>Tags := [''tag:a'', ''tag:a'']\<rparr>) \<noteq> []
   \<and> map (\<lambda>td. entries (Labels td) LabelMetaDeviceTag)
         (translate [exampleDevice\<lparr>Tags := [''tag:a'', ''tag:a'']\<rparr>] defaultFilters)
       = [Some ''tag:a'', Some ''tag:a'']"
  using translate_one_descriptor_per_tag_entry
    [of "exampleDevice\<lparr>Tags := [''tag:a'', ''tag:a'']\<rparr>" defaultFilters "[]" "[]" "[]"]
  by simp

text \<open>
  C2 as stated fails: a device whose \<open>Tags\<close> sequence holds the same tag twice yields
  two descriptors, while it has one distinct tag.
\<close>

theorem translate_duplicate_tags_counterexample:
  "length (translate [exampleDevice\<lparr>Tags := [''tag:a'', ''tag:a'']\<rparr>] defaultFilters) = 2
   \<and> card (set (Tags (exampleDevice\<lparr>Tags := [''tag:a'', ''tag:a'']\<rparr>))) = 1
   \<and> length (translate [exampleDevice\<lparr>Tags := [''tag:a'', ''tag:a'']\<rparr>] defaultFilters)
       \<noteq> card (set (Tags (exampleDevice\<lparr>Tags := [''tag:a'', ''tag:a'']\<rparr>)))"
  by (simp add: translate_single length_emitted)

text \<open>
  C3. A device tagged \<open>tag:a\<close>, \<open>tag:b\<close> yields exactly two descriptors, with the same
  targets and with label maps that differ at the tag key only, \<open>tag:a\<close> first. In
  general the output follows the input devices in order, and within a tagged device the
  order of its \<open>Tags\<close>, every copy carrying the same targets.
\<close>

theorem tag_fan_out_order:
  "(Tags d = [''tag:a'', ''tag:b''] \<longrightarrow>
      (\<exists>ts ls. translate [d] filters =
         [\<lparr> Targets = ts, Labels = Some (ls(LabelMetaDeviceTag \<mapsto> ''tag:a'')) \<rparr>,
          \<lparr> Targets = ts, Labels = Some (ls(LabelMetaDeviceTag \<mapsto> ''tag:b'')) \<rparr>]))
   \<and> translate (ds @ es) filters = translate ds filters @ translate es filters
   \<and> (Tags d \<noteq> [] \<longrightarrow>
      (\<exists>ts ls. translate [d] filters =
         map (\<lambda>t. \<lparr> Targets = ts, Labels = Some (ls(LabelMetaDeviceTag \<mapsto> t)) \<rparr>) (Tags d)))"
proof (intro conjI impI)
  define target where "target = applyFilters filters (baseTarget d)"
  show general: "\<exists>ts ls. translate [d] filters =
         map (\<lambda>t. \<lparr> Targets = ts, Labels = Some (ls(LabelMetaDeviceTag \<mapsto> t)) \<rparr>) (Tags d)"
    if "Tags d \<noteq> []"
  proof (intro exI)
    show "translate [d] filters =
            map (\<lambda>t. \<lparr> Targets = Targets target,
                        Labels = Some ((entries (Labels target))(LabelMetaDeviceTag \<mapsto> t)) \<rparr>)
              (Tags d)"
      using that
      by (simp add: translate_single emitted_def Let_def target_def withTag_record)
  qed
  show "\<exists>ts ls. translate [d] filters =
         [\<lparr> Targets = ts, Labels = Some (ls(LabelMetaDeviceTag \<mapsto> ''tag:a'')) \<rparr>,
          \<lparr> Targets = ts, Labels = Some (ls(LabelMetaDeviceTag \<mapsto> ''tag:b'')) \<rparr>]"
    if "Tags d = [''tag:a'', ''tag:b'']"
    using general that by simp
  show "translate (ds @ es) filters = translate ds filters @ translate es filters"
    by (rule translate_app)
qed

theorem tag_fan_out_order_witness:
  "Tags (exampleDevice\<lparr>Tags := [''tag:a'', ''tag:b'']\<rparr>) = [''tag:a'', ''tag:b'']
   \<and> Tags (exampleDevice\<lparr>Tags := [''tag:a'', ''tag:b'']\<rparr>) \<noteq> []
   \<and> (\<exists>ts ls. translate [exampleDevice\<lparr>Tags := [''tag:a'', ''tag:b'']\<rparr>] defaultFilters =
         [\<lparr> Targets = ts, Labels = Some (ls(LabelMetaDeviceTag \<mapsto> ''tag:a'')) \<rparr>,
          \<lparr> Targets = ts, Labels = Some (ls(LabelMetaDeviceTag \<mapsto> ''tag:b'')) \<rparr>])"
  using tag_fan_out_order
    [of "exampleDevice\<lparr>Tags := [''tag:a'', ''tag:b'']\<rparr>" defaultFilters "[]" "[]"]
  by simp

section \<open>Printing an IPv4 address and parsing it again\<close>

lemma appendDecimal_dec: "appendDecimal b x = b @ dec x"
  by (simp add: appendDecimal_def dec_def Let_def)

lemma String4_dec:
  "String4 (a, b, c, d) = dec a @ CHR ''.'' # dec b @ CHR ''.'' # dec c @ CHR ''.'' # dec d"
  by (simp add: appendDecimal_dec[of "_ @ _"] appendDecimal_dec[of "_ # _"] dec_def[symmetric])

lemma digits_nth:
  assumes "k < 10"
  shows "of_char (digits ! k) = (48::nat) + k"
proof -
  from assms consider "k = 0" | "k = 1" | "k = 2" | "k = 3" | "k = 4" | "k = 5"
    | "k = 6" | "k = 7" | "k = 8" | "k = 9"
    by atomize_elim arith
  then show ?thesis
    by cases (simp_all add: digits_def)
qed

lemma isDigit_digits: "k < 10 \<Longrightarrow> isDigit (digits ! k)"
  by (simp add: isDigit_def digits_nth)

lemma isDigit_not_special: "isDigit c \<Longrightarrow> c \<noteq> CHR ''.'' \<and> c \<noteq> CHR '':'' \<and> c \<noteq> CHR ''%''"
  by (auto simp: isDigit_def)

lemma unat_byte_less: "unat (x :: byte) < 256"
  using unsigned_less[of x, where 'a = nat] by simp

lemma parse_digit:
  assumes "k < 10" "\<not> (digLen = 1 \<and> val = 0)" "val * 10 + k \<le> 255"
  shows "parseIPv4FieldsFrom (digits ! k # cs) prev val pos digLen flds =
         parseIPv4FieldsFrom cs (Some (digits ! k)) (val * 10 + k) pos (digLen + 1) flds"
  using assms by (auto simp: isDigit_digits digits_nth Let_def)

lemma three_digits: "(n::nat) = (n div 100 * 10 + n div 10 mod 10) * 10 + n mod 10"
proof -
  have "n div 100 = n div 10 div 10"
    by (simp add: div_mult2_eq)
  then show ?thesis by simp
qed

lemma dec_shape:
  obtains k where "dec x = [digits ! k]" "k < 10" "unat x = k"
  | j k where "dec x = [digits ! j, digits ! k]" "0 < j" "j < 10" "k < 10" "unat x = j * 10 + k"
  | i j k where "dec x = [digits ! i, digits ! j, digits ! k]" "0 < i" "i < 10" "j < 10" "k < 10"
      "unat x = (i * 10 + j) * 10 + k"
proof -
  define n where "n = unat x"
  have n: "n < 256" unfolding n_def by (rule unat_byte_less)
  consider "n < 10" | "10 \<le> n" "n < 100" | "100 \<le> n" by linarith
  then show ?thesis
  proof cases
    case 1
    then have "dec x = [digits ! n]"
      by (simp add: dec_def appendDecimal_def n_def[symmetric] Let_def)
    with 1 show ?thesis by (intro that(1)[of n]) (simp_all add: n_def)
  next
    case 2
    then have "dec x = [digits ! (n div 10), digits ! (n mod 10)]"
      by (simp add: dec_def appendDecimal_def n_def[symmetric] Let_def)
    moreover from 2 have "0 < n div 10" "n div 10 < 10" "n mod 10 < 10"
      by (simp_all add: div_greater_zero_iff less_mult_imp_div_less)
    moreover have "unat x = n div 10 * 10 + n mod 10" by (simp add: n_def)
    ultimately show ?thesis by (rule that(2))
  next
    case 3
    then have "dec x = [digits ! (n div 100), digits ! (n div 10 mod 10), digits ! (n mod 10)]"
      by (simp add: dec_def appendDecimal_def n_def[symmetric] Let_def)
    moreover from 3 n have "0 < n div 100" "n div 100 < 10" "n div 10 mod 10 < 10" "n mod 10 < 10"
      by (simp_all add: div_greater_zero_iff less_mult_imp_div_less)
    moreover have "unat x = (n div 100 * 10 + n div 10 mod 10) * 10 + n mod 10"
      unfolding n_def by (rule three_digits)
    ultimately show ?thesis by (rule that(3))
  qed
qed

lemma dec_digits: "\<forall>c \<in> set (dec x). isDigit c"
  by (rule dec_shape[of x]) (simp_all add: isDigit_digits)

lemma dec_nonempty: "dec x \<noteq> []"
  by (rule dec_shape[of x]) simp_all

lemma last_dec: "isDigit (last (dec x))"
  using dec_digits dec_nonempty last_in_set by blast

lemma parse_dec:
  "parseIPv4FieldsFrom (dec x @ rest) prev 0 pos 0 flds =
   parseIPv4FieldsFrom rest (Some (last (dec x))) (unat x) pos (length (dec x)) flds"
proof (rule dec_shape[of x])
  fix k assume "dec x = [digits ! k]" "k < 10" "unat x = k"
  then show ?thesis by (simp add: parse_digit del: parseIPv4FieldsFrom.simps(2))
next
  fix j k assume "dec x = [digits ! j, digits ! k]" "0 < j" "j < 10" "k < 10" "unat x = j * 10 + k"
  moreover have "unat x \<le> 255" using unat_byte_less[of x] by simp
  ultimately show ?thesis by (simp add: parse_digit del: parseIPv4FieldsFrom.simps(2))
next
  fix i j k assume "dec x = [digits ! i, digits ! j, digits ! k]" "0 < i" "i < 10" "j < 10" "k < 10"
      "unat x = (i * 10 + j) * 10 + k"
  moreover have "unat x \<le> 255" using unat_byte_less[of x] by simp
  ultimately show ?thesis by (simp add: parse_digit del: parseIPv4FieldsFrom.simps(2))
qed

lemma parse_dec_end:
  "\<not> pos < 3 \<Longrightarrow> parseIPv4FieldsFrom (dec x) prev 0 pos 0 flds = Some (flds[3 := x])"
  using parse_dec[of x "[]" prev pos flds] by simp

lemma parse_dot:
  assumes "isDigit c" "rest \<noteq> []" "pos < 3"
  shows "parseIPv4FieldsFrom (CHR ''.'' # rest) (Some c) val pos digLen flds =
         parseIPv4FieldsFrom rest (Some CHR ''.'') 0 (pos + 1) 0 (flds[pos := of_nat val])"
  using assms isDigit_not_special[of c] by (simp add: isDigit_def)

lemma parseIPv4Fields_String4:
  "parseIPv4Fields (String4 (a, b, c, d)) = Some [a, b, c, d]"
  by (simp add: parseIPv4Fields_def String4_dec parse_dec parse_dec_end parse_dot last_dec dec_nonempty
      del: parseIPv4FieldsFrom.simps(2) String4.simps)

lemma ParseAddrFrom_digits:
  "\<forall>c \<in> set ds. isDigit c \<Longrightarrow> ParseAddrFrom (ds @ CHR ''.'' # rest) s = parseIPv4 s"
  by (induction ds) (auto dest: isDigit_not_special)

lemma ParseIP_String4:
  "ParseIP (String4 (a, b, c, d)) = Some [0, 0, 0, 0, 0, 0, 0, 0, 0, 0, 0xff, 0xff, a, b, c, d]"
proof -
  have "ParseAddr (String4 (a, b, c, d)) = parseIPv4 (String4 (a, b, c, d))"
    unfolding ParseAddr_def
    using ParseAddrFrom_digits[OF dec_digits, of a _ "String4 (a, b, c, d)"]
    by (simp add: String4_dec del: String4.simps)
  then show ?thesis
    by (simp add: ParseIP_def parseIPv4_def parseIPv4Fields_String4 del: String4.simps)
qed

lemma To4_mapped:
  "To4 [0, 0, 0, 0, 0, 0, 0, 0, 0, 0, 0xff, 0xff, a, b, c, d] = Some (a, b, c, d)"
  by (simp add: To4_def isZeros_def)

lemma keptAddress_String4: "keptAddress (String4 v) = [String4 v]"
  by (cases v) (simp add: keptAddress_def ParseIP_String4 To4_mapped del: String4.simps)

lemma keptAddress_canonical: "s \<in> set (keptAddress t) \<Longrightarrow> \<exists>v. s = String4 v"
  by (auto simp: keptAddress_def split: option.splits)

lemma keptAddress_fixed: "s \<in> set (keptAddress t) \<Longrightarrow> keptAddress s = [s]"
  using keptAddress_canonical keptAddress_String4 by blast

lemma filterIPv6From_append:
  "filterIPv6From ts targets = targets @ concat (map keptAddress ts)"
  by (induction ts arbitrary: targets) (simp_all add: keptAddress_def split: option.splits)

lemma Targets_filterIPv6Addresses:
  "Targets (filterIPv6Addresses td) = concat (map keptAddress (Targets td))"
  by (simp add: filterIPv6Addresses_def filterIPv6From_append)

lemma concat_map_fixed: "(\<forall>s \<in> set xs. f s = [s]) \<Longrightarrow> concat (map f xs) = xs"
  by (induction xs) simp_all

lemma keptAddress_idem:
  "concat (map keptAddress (concat (map keptAddress ts))) = concat (map keptAddress ts)"
  by (rule concat_map_fixed) (auto dest: keptAddress_fixed)

subsection \<open>The addresses of the specification's example\<close>

lemmas parse_defs =
  ParseIP_def ParseAddr_def parseIPv6_def parseIPv6Zoneless_def parseIPv4_def
  parseIPv4Fields_def hexVal_def isDigit_def expandEllipsis_def Let_def upt_conv_Cons

lemma ParseIP_v4_example:
  "ParseIP ''100.64.0.1'' = Some [0, 0, 0, 0, 0, 0, 0, 0, 0, 0, 0xff, 0xff, 100, 64, 0, 1]"
  by (simp add: parse_defs)

lemma ParseIP_v6_example:
  "ParseIP ''2001:db8::1'' = Some [0x20, 1, 0xd, 0xb8, 0, 0, 0, 0, 0, 0, 0, 0, 0, 0, 0, 1]"
  by (simp add: parse_defs)

lemma ParseIP_mapped_example:
  "ParseIP ''::ffff:100.64.0.1'' = Some [0, 0, 0, 0, 0, 0, 0, 0, 0, 0, 0xff, 0xff, 100, 64, 0, 1]"
  by (simp add: parse_defs)

lemma ParseIP_invalid_example: "ParseIP ''not-an-ip'' = None"
  by (simp add: parse_defs)

lemma String4_example: "String4 (100, 64, 0, 1) = ''100.64.0.1''"
  by (simp add: appendDecimal_def digits_def)

lemma keptAddress_examples:
  "keptAddress ''100.64.0.1'' = [''100.64.0.1'']"
  "keptAddress ''2001:db8::1'' = []"
  "keptAddress ''not-an-ip'' = []"
  "keptAddress ''::ffff:100.64.0.1'' = [''100.64.0.1'']"
  by (simp_all add: keptAddress_def ParseIP_v4_example ParseIP_v6_example
        ParseIP_mapped_example ParseIP_invalid_example To4_mapped String4_example
        del: String4.simps)
     (simp_all add: To4_def isZeros_def)

section \<open>Properties of the filters\<close>

lemma entries_filterEmpty:
  "entries (filterEmpty ls) k =
     (case entries ls k of
        None \<Rightarrow> None
      | Some v \<Rightarrow> if k = [] \<or> v = [] then None else Some v)"
  by (simp add: filterEmpty_def entries_def split: option.splits)

lemma filterEmpty_idem: "filterEmpty (filterEmpty ls) = filterEmpty ls"
  by (cases ls) (auto simp: filterEmpty_def split: option.splits)

lemma applyFilters_default:
  "applyFilters defaultFilters td = filterIPv6Addresses (filterEmptyLabels td)"
  by (simp add: defaultFilters_def)


lemma Labels_default: "Labels (applyFilters defaultFilters td) = filterEmpty (Labels td)"
  by (simp add: applyFilters_default filterIPv6Addresses_def filterEmptyLabels_def)


lemma entries_emitted:
  assumes "td \<in> set (emitted filters d)" and "k \<noteq> LabelMetaDeviceTag"
  shows "entries (Labels td) k = entries (Labels (applyFilters filters (baseTarget d))) k"
  using assms by (auto simp: emitted_def Let_def entries_withTag split: if_splits)

lemma emitted_nonempty: "emitted filters d \<noteq> []"
  by (simp add: emitted_def Let_def)

text \<open>
  C9. \<open>filterIPv6Addresses\<close> hands the label map on as it is, and \<open>filterEmptyLabels\<close>
  hands the targets on as they are.
\<close>

theorem filters_frame:
  "Labels (filterIPv6Addresses td) = Labels td
   \<and> Targets (filterEmptyLabels td) = Targets td"
proof
  show "Labels (filterIPv6Addresses td) = Labels td"
    by (simp add: filterIPv6Addresses_def)
  show "Targets (filterEmptyLabels td) = Targets td"
    by (simp add: filterEmptyLabels_def)
qed

text \<open>
  C10. Applying either default filter twice is the same as applying it once. For the
  address filter this rests on the round trip of the printer and the parser: every
  address it emits parses as an IPv4 address that prints as the very same string.
\<close>

theorem filters_idempotent:
  "filterEmptyLabels (filterEmptyLabels td) = filterEmptyLabels td
   \<and> filterIPv6Addresses (filterIPv6Addresses td) = filterIPv6Addresses td
   \<and> (\<forall>s \<in> set (Targets (filterIPv6Addresses td)).
         \<exists>ip v. ParseIP s = Some ip \<and> To4 ip = Some v \<and> String4 v = s)"
proof (intro conjI ballI)
  show "filterEmptyLabels (filterEmptyLabels td) = filterEmptyLabels td"
    by (simp add: filterEmptyLabels_def filterEmpty_idem)
  show "filterIPv6Addresses (filterIPv6Addresses td) = filterIPv6Addresses td"
    by (simp add: filterIPv6Addresses_def filterIPv6From_append keptAddress_idem)
  fix s
  assume "s \<in> set (Targets (filterIPv6Addresses td))"
  then obtain t where "s \<in> set (keptAddress t)"
    by (auto simp: Targets_filterIPv6Addresses)
  then obtain a b c d where s: "s = String4 (a, b, c, d)"
    using keptAddress_canonical by (metis prod_cases4)
  have "ParseIP s = Some [0, 0, 0, 0, 0, 0, 0, 0, 0, 0, 0xff, 0xff, a, b, c, d]"
    unfolding s by (rule ParseIP_String4)
  moreover have "To4 [0, 0, 0, 0, 0, 0, 0, 0, 0, 0, 0xff, 0xff, a, b, c, d] = Some (a, b, c, d)"
    by (rule To4_mapped)
  ultimately show "\<exists>ip v. ParseIP s = Some ip \<and> To4 ip = Some v \<and> String4 v = s"
    using s by blast
qed

theorem filters_idempotent_witness:
  "''100.64.0.1'' \<in> set (Targets (filterIPv6Addresses (baseTarget exampleDevice)))
   \<and> (\<exists>ip v. ParseIP ''100.64.0.1'' = Some ip \<and> To4 ip = Some v \<and> String4 v = ''100.64.0.1'')"
proof -
  have "Targets (filterIPv6Addresses (baseTarget exampleDevice)) = [''100.64.0.1'']"
    by (simp add: Targets_filterIPv6Addresses Targets_baseTarget exampleDevice_def
          keptAddress_examples)
  then have mem: "''100.64.0.1'' \<in> set (Targets (filterIPv6Addresses (baseTarget exampleDevice)))"
    by simp
  with filters_idempotent[of "baseTarget exampleDevice"] show ?thesis
    by blast
qed



subsection \<open>Labels under the default filters\<close>

lemma entries_default_emitted:
  assumes "td \<in> set (emitted defaultFilters d)" and "k \<noteq> LabelMetaDeviceTag"
  shows "entries (Labels td) k =
     (case entries (Labels (baseTarget d)) k of
        None \<Rightarrow> None
      | Some v \<Rightarrow> if k = [] \<or> v = [] then None else Some v)"
  using entries_emitted[OF assms] by (simp add: Labels_default entries_filterEmpty)

lemma tag_key_distinct:
  "LabelMetaAPI \<noteq> LabelMetaDeviceTag" "LabelMetaDeviceAuthorized \<noteq> LabelMetaDeviceTag"
  "LabelMetaDeviceClientVersion \<noteq> LabelMetaDeviceTag" "LabelMetaDeviceHostname \<noteq> LabelMetaDeviceTag"
  "LabelMetaDeviceID \<noteq> LabelMetaDeviceTag" "LabelMetaDeviceName \<noteq> LabelMetaDeviceTag"
  "LabelMetaDeviceOS \<noteq> LabelMetaDeviceTag" "LabelMetaTailnet \<noteq> LabelMetaDeviceTag"
  by (simp_all add: label_defs)

text \<open>
  C6. Under the default filters, no descriptor of a device whose \<open>ClientVersion\<close> is the
  empty string has an entry for the client-version key, and the same holds for each of
  the other string fields and its key. The descriptors of a device are those of
  \<open>translate\<close> on that device alone, at the device's place in the output.
\<close>

theorem empty_fields_omitted:
  "translate (pre @ d # post) defaultFilters
     = translate pre defaultFilters @ translate [d] defaultFilters @ translate post defaultFilters
   \<and> (\<forall>td \<in> set (translate [d] defaultFilters).
        (ClientVersion d = [] \<longrightarrow> entries (Labels td) LabelMetaDeviceClientVersion = None)
      \<and> (API d = [] \<longrightarrow> entries (Labels td) LabelMetaAPI = None)
      \<and> (Hostname d = [] \<longrightarrow> entries (Labels td) LabelMetaDeviceHostname = None)
      \<and> (ID d = [] \<longrightarrow> entries (Labels td) LabelMetaDeviceID = None)
      \<and> (Name d = [] \<longrightarrow> entries (Labels td) LabelMetaDeviceName = None)
      \<and> (OS d = [] \<longrightarrow> entries (Labels td) LabelMetaDeviceOS = None)
      \<and> (Tailnet d = [] \<longrightarrow> entries (Labels td) LabelMetaTailnet = None))"
proof (intro conjI ballI impI)
  show "translate (pre @ d # post) defaultFilters
     = translate pre defaultFilters @ translate [d] defaultFilters @ translate post defaultFilters"
    by (simp add: translate_concat)
next
  fix td
  assume "td \<in> set (translate [d] defaultFilters)"
  then have td: "td \<in> set (emitted defaultFilters d)"
    by (simp add: translate_single)
  note look = entries_default_emitted[OF td] baseTarget_values tag_key_distinct
  show "entries (Labels td) LabelMetaDeviceClientVersion = None" if "ClientVersion d = []"
    using that by (simp add: look)
  show "entries (Labels td) LabelMetaAPI = None" if "API d = []"
    using that by (simp add: look)
  show "entries (Labels td) LabelMetaDeviceHostname = None" if "Hostname d = []"
    using that by (simp add: look)
  show "entries (Labels td) LabelMetaDeviceID = None" if "ID d = []"
    using that by (simp add: look)
  show "entries (Labels td) LabelMetaDeviceName = None" if "Name d = []"
    using that by (simp add: look)
  show "entries (Labels td) LabelMetaDeviceOS = None" if "OS d = []"
    using that by (simp add: look)
  show "entries (Labels td) LabelMetaTailnet = None" if "Tailnet d = []"
    using that by (simp add: look)
qed

theorem empty_fields_omitted_witness:
  "ClientVersion exampleDevice = []
   \<and> translate [exampleDevice] defaultFilters \<noteq> []
   \<and> hd (translate [exampleDevice] defaultFilters) \<in> set (translate [exampleDevice] defaultFilters)
   \<and> entries (Labels (hd (translate [exampleDevice] defaultFilters))) LabelMetaDeviceClientVersion
       = None
   \<and> entries (Labels (hd (translate [exampleDevice] defaultFilters))) LabelMetaDeviceHostname
       = Some ''somehost''"
proof -
  have cv: "ClientVersion exampleDevice = []"
    by (simp add: exampleDevice_def)
  have ne: "translate [exampleDevice] defaultFilters \<noteq> []"
    by (simp add: translate_single emitted_nonempty)
  then have mem: "hd (translate [exampleDevice] defaultFilters)
                    \<in> set (translate [exampleDevice] defaultFilters)"
    by simp
  with empty_fields_omitted[of "[]" exampleDevice "[]"] cv
  have gone: "entries (Labels (hd (translate [exampleDevice] defaultFilters)))
                LabelMetaDeviceClientVersion = None"
    by blast
  from mem have "hd (translate [exampleDevice] defaultFilters) \<in> set (emitted defaultFilters exampleDevice)"
    by (simp add: translate_single)
  then have "entries (Labels (hd (translate [exampleDevice] defaultFilters))) LabelMetaDeviceHostname
       = (case entries (Labels (baseTarget exampleDevice)) LabelMetaDeviceHostname of
            None \<Rightarrow> None
          | Some v \<Rightarrow> if LabelMetaDeviceHostname = [] \<or> v = [] then None else Some v)"
    using tag_key_distinct(4) by (rule entries_default_emitted)
  also have "\<dots> = Some ''somehost''"
    by (simp add: baseTarget_values(4)) (simp add: exampleDevice_def LabelMetaDeviceHostname_def)
  finally show ?thesis
    using cv ne mem gone by blast
qed

lemma baseTarget_no_tag: "entries (Labels (baseTarget d)) LabelMetaDeviceTag = None"
  using dom_baseTarget[of d] tag_key_not_base by blast

text \<open>
  Under the default filters every label has a non-empty key, and every label other
  than the tag has a non-empty value: the tag is added once the filters have run.
\<close>

lemma default_labels_nonempty_except_tag:
  assumes "td \<in> set (translate ds defaultFilters)" and "entries (Labels td) k = Some v"
  shows "k \<noteq> [] \<and> (v = [] \<longrightarrow> k = LabelMetaDeviceTag)"
proof -
  from assms(1) obtain d where td: "td \<in> set (emitted defaultFilters d)"
    by (auto simp: translate_concat)
  show ?thesis
  proof (cases "k = LabelMetaDeviceTag")
    case True
    then show ?thesis by (simp add: LabelMetaDeviceTag_def)
  next
    case False
    with entries_default_emitted[OF td False] assms(2) show ?thesis
      by (auto split: option.splits if_splits)
  qed
qed

lemma default_labels_nonempty_when_tags_nonempty:
  assumes "td \<in> set (translate ds defaultFilters)" and "entries (Labels td) k = Some v"
    and "\<forall>d \<in> set ds. [] \<notin> set (Tags d)"
  shows "k \<noteq> [] \<and> v \<noteq> []"
proof -
  from assms(1) obtain d where d: "d \<in> set ds" and td: "td \<in> set (emitted defaultFilters d)"
    by (auto simp: translate_concat)
  show ?thesis
  proof (cases "k = LabelMetaDeviceTag")
    case True
    with td assms(2) have "v \<in> set (Tags d)"
      by (cases "Tags d = []")
         (auto simp: emitted_def Let_def entries_withTag Labels_default entries_filterEmpty
               baseTarget_no_tag split: option.splits if_splits)
    with assms(3) d True show ?thesis
      by (auto simp: LabelMetaDeviceTag_def)
  next
    case False
    with default_labels_nonempty_except_tag[OF assms(1,2)] show ?thesis by simp
  qed
qed

text \<open>
  C1 does not hold of the code: the filters run before the fan-out, so the tag label is
  never filtered. A device with the empty string among its tags yields a descriptor
  whose tag label has the empty value.
\<close>

theorem empty_tag_label_emitted:
  "length (translate [exampleDevice\<lparr>Tags := [[]]\<rparr>] defaultFilters) = 1
   \<and> entries (Labels (hd (translate [exampleDevice\<lparr>Tags := [[]]\<rparr>] defaultFilters)))
        LabelMetaDeviceTag = Some []"
  by (simp add: translate_single emitted_def Let_def entries_withTag)

section \<open>Determinism of the translator\<close>

lemma rangeAssign_result:
  "rangeAssign keep src seen dst dst' \<Longrightarrow>
   dst' = (\<lambda>k. if k \<notin> seen \<and> (\<exists>v. src k = Some v \<and> keep k v) then src k else dst k)"
proof (induction rule: rangeAssign.induct)
  case (rangeEnd seen dst)
  then show ?case by (auto simp: fun_eq_iff)
next
  case (rangeSkip k v seen dst dst')
  then show ?case by (auto simp: fun_eq_iff)
next
  case (rangeStore k v seen dst dst')
  then show ?case by (auto simp: fun_eq_iff)
qed

lemma rangeAssign_total:
  assumes "finite (dom src)"
  shows "\<exists>dst'. rangeAssign keep src seen dst dst'"
  using assms
proof (induction "card (dom src - seen)" arbitrary: seen dst)
  case 0
  then have "dom src \<subseteq> seen" by simp
  then show ?case by (blast intro: rangeEnd)
next
  case (Suc n)
  have "dom src - seen \<noteq> {}"
  proof
    assume "dom src - seen = {}"
    with Suc.hyps(2) show False by simp
  qed
  then obtain k v where k: "src k = Some v" "k \<notin> seen" by auto
  with Suc have "n = card (dom src - insert k seen)"
    by (simp add: card_Diff_insert domI)
  from Suc.hyps(1)[OF this Suc.prems]
  have later: "\<exists>dst'. rangeAssign keep src (insert k seen) d dst'" for d
    by blast
  show ?case
  proof (cases "keep k v")
    case True
    with k later[of "dst(k \<mapsto> v)"] show ?thesis by (blast intro: rangeStore)
  next
    case False
    with k later[of dst] show ?thesis by (blast intro: rangeSkip)
  qed
qed

lemma rangeAssign_copy:
  "rangeAssign (\<lambda>k v. True) src {} Map.empty copied \<Longrightarrow> copied = src"
  by (drule rangeAssign_result) (auto simp: fun_eq_iff)

lemma filterEmptyRel_function: "filterEmptyRel inp out \<Longrightarrow> out = filterEmpty inp"
proof (induction rule: filterEmptyRel.induct)
  case filterEmptyNil
  show ?case by (simp add: filterEmpty_def)
next
  case (filterEmptyMap m filtered)
  then show ?case
    by (auto dest!: rangeAssign_result simp: filterEmpty_def fun_eq_iff split: option.splits)
qed

lemma filterEmptyRel_total:
  "finite (dom (entries inp)) \<Longrightarrow> filterEmptyRel inp (filterEmpty inp)"
proof (cases inp)
  case None
  then show ?thesis by (simp add: filterEmpty_def filterEmptyNil)
next
  case (Some m)
  assume "finite (dom (entries inp))"
  with Some have "finite (dom m)" by simp
  then obtain filtered
    where r: "rangeAssign (\<lambda>k v. \<not> (k = [] \<or> v = [])) m {} Map.empty filtered"
    using rangeAssign_total[of m "\<lambda>k v. \<not> (k = [] \<or> v = [])" "{}" Map.empty] by blast
  then have "filterEmptyRel (Some m) (Some filtered)"
    by (rule filterEmptyMap)
  with filterEmptyRel_function[OF this] Some show ?thesis by simp
qed

lemma fanOutRel_function:
  "fanOutRel target ts found found' \<Longrightarrow> found' = fanOut target ts found"
proof (induction rule: fanOutRel.induct)
  case (fanOutEnd found)
  show ?case by simp
next
  case (fanOutTag copied ts found t found')
  from fanOutTag.hyps(1) have "copied = entries (Labels target)"
    by (rule rangeAssign_copy)
  with fanOutTag.IH show ?case by (simp add: withTag_def)
qed

lemma fanOutRel_total:
  assumes "finite (dom (entries (Labels target)))"
  shows "fanOutRel target ts found (fanOut target ts found)"
proof (induction ts arbitrary: found)
  case Nil
  show ?case by (simp add: fanOutEnd)
next
  case (Cons t ts)
  from assms obtain copied
    where c: "rangeAssign (\<lambda>k v. True) (entries (Labels target)) {} Map.empty copied"
    using rangeAssign_total by blast
  then have "copied = entries (Labels target)"
    by (rule rangeAssign_copy)
  with c Cons[of "found @ [withTag target t]"] show ?case
    by (auto simp: withTag_def intro: fanOutTag)
qed

lemma translateRel_function:
  "translateRel ds filters found found' \<Longrightarrow> found' = translateFrom ds filters found"
proof (induction rule: translateRel.induct)
  case (translateEnd filters found)
  show ?case by simp
next
  case (translateUntagged d ds filters found found')
  then show ?case by (simp add: Let_def)
next
  case (translateTagged d filters found found1 ds found')
  from translateTagged.hyps(2)
  have "found1 = fanOut (applyFilters filters (baseTarget d)) (Tags d) found"
    by (rule fanOutRel_function)
  with translateTagged.hyps(1) translateTagged.IH show ?case by (simp add: Let_def)
qed

lemma translateRel_total:
  assumes "\<forall>d \<in> set ds. finite (dom (entries (Labels (applyFilters filters (baseTarget d)))))"
  shows "translateRel ds filters found (translateFrom ds filters found)"
  using assms
proof (induction ds arbitrary: found)
  case Nil
  show ?case by (simp add: translateEnd)
next
  case (Cons d ds)
  show ?case
  proof (cases "length (Tags d) = 0")
    case True
    with Cons show ?thesis
      by (auto simp: Let_def intro: translateUntagged)
  next
    case False
    from Cons.prems have "fanOutRel (applyFilters filters (baseTarget d)) (Tags d) found
        (fanOut (applyFilters filters (baseTarget d)) (Tags d) found)"
      by (simp add: fanOutRel_total)
    with False Cons show ?thesis
      by (auto simp: Let_def intro: translateTagged)
  qed
qed

lemma finite_default_labels:
  "finite (dom (entries (Labels (applyFilters defaultFilters (baseTarget d)))))"
proof -
  have "dom (entries (filterEmpty (Labels (baseTarget d))))
          \<subseteq> dom (entries (Labels (baseTarget d)))"
    by (auto simp: entries_filterEmpty split: option.splits)
  then have "dom (entries (Labels (applyFilters defaultFilters (baseTarget d)))) \<subseteq> baseLabelKeys"
    by (simp only: Labels_default dom_baseTarget)
  moreover have "finite baseLabelKeys"
    by (simp add: baseLabelKeys_def)
  ultimately show ?thesis
    by (rule finite_subset)
qed

lemma translateRel_default:
  "translateRel ds defaultFilters [] (translate ds defaultFilters)"
  unfolding translate_def by (rule translateRel_total) (simp add: finite_default_labels)

text \<open>
  C8. With the filters taken as functions, the only freedom a run of \<open>translate\<close> has is
  the order in which Go visits the labels it copies. Whatever that order, two runs on
  the same devices and filters end with the same sequence of descriptors, equal in
  targets and in labels at every position: the value of \<open>translate\<close>.
\<close>

theorem translate_deterministic:
  "translateRel ds filters [] out1 \<Longrightarrow> translateRel ds filters [] out2 \<Longrightarrow>
   out1 = out2 \<and> out1 = translate ds filters"
proof -
  assume "translateRel ds filters [] out1"
  then have one: "out1 = translateFrom ds filters []"
    by (rule translateRel_function)
  assume "translateRel ds filters [] out2"
  then have "out2 = translateFrom ds filters []"
    by (rule translateRel_function)
  with one show ?thesis
    by (simp add: translate_def)
qed

theorem translate_deterministic_witness:
  "translateRel [exampleDevice\<lparr>Tags := [''tag:a'', ''tag:b'']\<rparr>] defaultFilters []
     (translate [exampleDevice\<lparr>Tags := [''tag:a'', ''tag:b'']\<rparr>] defaultFilters)
   \<and> translateRel [exampleDevice\<lparr>Tags := [''tag:a'', ''tag:b'']\<rparr>] defaultFilters []
     (emitted defaultFilters (exampleDevice\<lparr>Tags := [''tag:a'', ''tag:b'']\<rparr>))
   \<and> translate [exampleDevice\<lparr>Tags := [''tag:a'', ''tag:b'']\<rparr>] defaultFilters
       = emitted defaultFilters (exampleDevice\<lparr>Tags := [''tag:a'', ''tag:b'']\<rparr>)"
proof -
  let ?d = "exampleDevice\<lparr>Tags := [''tag:a'', ''tag:b'']\<rparr>"
  have r1: "translateRel [?d] defaultFilters [] (translate [?d] defaultFilters)"
    by (rule translateRel_default)
  have r2: "translateRel [?d] defaultFilters [] (emitted defaultFilters ?d)"
    using translateRel_default[of "[?d]"] by (simp only: translate_single)
  from translate_deterministic[OF r1 r2] r1 r2 show ?thesis
    by blast
qed

section \<open>The discovery handler's answers\<close>

lemma finalStatus_serveTargets:
  "finalStatus (fst (serveTargets encode filters devices newResponse logged)) =
     (case encode (translate devices filters) of Inl e \<Rightarrow> 500 | Inr buf \<Rightarrow> 200)"
  by (simp add: serveTargets_def newResponse_def HeaderAdd_def Write_def WriteHeader_def
        finalStatus_def Let_def split: sum.splits)

text \<open>
  Every way to a 500: a hard error of \<open>Devices\<close>, or else an error of the encoder.
\<close>

lemma finalStatus_ServeHTTP:
  "finalStatus (fst (ServeHTTP encode filters (devices, err) newResponse)) =
     (if \<exists>e. err = Some e \<and> e \<noteq> ErrStaleResults then 500
      else case encode (translate devices filters) of Inl e \<Rightarrow> 500 | Inr buf \<Rightarrow> 200)"
proof (cases err)
  case None
  then show ?thesis
    by (simp add: ServeHTTP_def finalStatus_serveTargets)
next
  case (Some e)
  show ?thesis
  proof (cases e)
    case ErrStaleResults
    with Some show ?thesis
      by (simp add: ServeHTTP_def finalStatus_serveTargets)
  next
    case (Err msg)
    with Some show ?thesis
      by (simp add: ServeHTTP_def newResponse_def Write_def WriteHeader_def
            finalStatus_def Let_def)
  qed
qed

text \<open>
  C5. Provided the JSON encoder succeeds on the translated targets (Go's encoder has no
  error for slices, maps and strings), the handler answers 500 exactly when \<open>Devices\<close>
  returned an error other than \<open>ErrStaleResults\<close>; the body is then the diagnostic
  message alone and no content type is set. When \<open>Devices\<close> returned no error or
  \<open>ErrStaleResults\<close>, the status is 200, the body is the encoding of the translated
  devices, and the \<open>Content-Type\<close> header is \<open>application/json\<close>.
\<close>

theorem discovery_handler_answers:
  assumes "encode (translate devices filters) = Inr payload"
  shows "(finalStatus (fst (ServeHTTP encode filters (devices, err) newResponse)) = 500
            \<longleftrightarrow> (\<exists>e. err = Some e \<and> e \<noteq> ErrStaleResults))
   \<and> ((\<exists>e. err = Some e \<and> e \<noteq> ErrStaleResults) \<longrightarrow>
        (\<exists>msg. err = Some (Err msg)
           \<and> written (fst (ServeHTTP encode filters (devices, err) newResponse))
               = ''Failed to discover Tailscale devices: '' @ msg)
        \<and> headers (fst (ServeHTTP encode filters (devices, err) newResponse)) = [])
   \<and> (err = None \<or> err = Some ErrStaleResults \<longrightarrow>
        finalStatus (fst (ServeHTTP encode filters (devices, err) newResponse)) = 200
        \<and> written (fst (ServeHTTP encode filters (devices, err) newResponse)) = payload
        \<and> headers (fst (ServeHTTP encode filters (devices, err) newResponse))
            = [(''Content-Type'', ''application/json'')])"
proof -
  have served: "finalStatus (fst (serveTargets encode filters devices newResponse logged)) = 200
      \<and> written (fst (serveTargets encode filters devices newResponse logged)) = payload
      \<and> headers (fst (serveTargets encode filters devices newResponse logged))
            = [(''Content-Type'', ''application/json'')]" for logged
    using assms
    by (simp add: serveTargets_def newResponse_def HeaderAdd_def Write_def WriteHeader_def
          finalStatus_def Let_def)
  show ?thesis
  proof (cases err)
    case None
    with served[of "[]"] show ?thesis
      by (simp add: ServeHTTP_def)
  next
    case (Some e)
    show ?thesis
    proof (cases e)
      case ErrStaleResults
      with Some served[of "[''Serving potentially stale results'']"] show ?thesis
        by (simp add: ServeHTTP_def)
    next
      case (Err msg)
      with Some show ?thesis
        by (simp add: ServeHTTP_def newResponse_def Write_def WriteHeader_def
              finalStatus_def Let_def)
    qed
  qed
qed

theorem discovery_handler_answers_witness:
  "(\<lambda>tds. if tds = [] then Inr ''null'' else Inl ''unsupported'') (translate [] defaultFilters)
     = (Inr ''null'' :: string + string)
   \<and> finalStatus (fst (ServeHTTP (\<lambda>tds. if tds = [] then Inr ''null'' else Inl ''unsupported'')
        defaultFilters ([], Some ErrStaleResults) newResponse)) = 200
   \<and> written (fst (ServeHTTP (\<lambda>tds. if tds = [] then Inr ''null'' else Inl ''unsupported'')
        defaultFilters ([], Some ErrStaleResults) newResponse)) = ''null''
   \<and> finalStatus (fst (ServeHTTP (\<lambda>tds. if tds = [] then Inr ''null'' else Inl ''unsupported'')
        defaultFilters ([], Some (Err ''timeout'')) newResponse)) = 500
   \<and> written (fst (ServeHTTP (\<lambda>tds. if tds = [] then Inr ''null'' else Inl ''unsupported'')
        defaultFilters ([], Some (Err ''timeout'')) newResponse))
       = ''Failed to discover Tailscale devices: timeout''"
proof -
  let ?enc = "\<lambda>tds :: TargetDescriptor list.
                if tds = [] then Inr ''null'' else (Inl ''unsupported'' :: string + string)"
  have enc: "?enc (translate [] defaultFilters) = Inr ''null''"
    by (simp add: translate_Nil)
  note stale = discovery_handler_answers
    [where encode = ?enc and devices = "[]" and filters = defaultFilters
       and payload = "''null''" and err = "Some ErrStaleResults", OF enc]
  note hard = discovery_handler_answers
    [where encode = ?enc and devices = "[]" and filters = defaultFilters
       and payload = "''null''" and err = "Some (Err ''timeout'')", OF enc]
  from enc stale hard show ?thesis
    by simp
qed

end
